theory Spec2Isabelle
  imports Complex_Main "HOL-Library.AList" "HOL-Library.Char_ord" "HOL-Library.List_Lexorder"
begin

section \<open>The steps recorder of \<^verbatim>\<open>main.py\<close>\<close>

text \<open>
  The recorder object of \<^verbatim>\<open>StepsRecorder\<close> is a record, each method a function that
  takes the record and returns it updated. Whatever a method reads from outside the
  process while it runs (the clocks, the frontmost application, the outcome of a
  screen capture, the clipboard, whether a file could be written) is handed to it in a
  record \<open>env\<close>. Times are Python floats; they are read as real numbers here, so the
  rounding of the subtraction in the debounce test is not part of the model. Console
  output is left out throughout.
\<close>

subsection \<open>Strings and numbers as Python formats them\<close>

definition digit_char :: "nat \<Rightarrow> char" where
  "digit_char k = char_of (48 + k)"

fun dec_digits :: "nat \<Rightarrow> string \<Rightarrow> string" where
  "dec_digits n acc =
     (if n < 10 then digit_char n # acc
      else dec_digits (n div 10) (digit_char (n mod 10) # acc))"

declare dec_digits.simps [simp del]

definition str_nat :: "nat \<Rightarrow> string" where
  "str_nat n = dec_digits n []"

definition str_int :: "int \<Rightarrow> string" where
  \<comment> \<open>\<^verbatim>\<open>str(i)\<close> and \<^verbatim>\<open>f"{i}"\<close>\<close>
  "str_int i = (if i < 0 then CHR ''-'' # str_nat (nat (- i)) else str_nat (nat i))"

definition zfill :: "nat \<Rightarrow> string \<Rightarrow> string" where
  "zfill w ds = replicate (w - length ds) (CHR ''0'') @ ds"

definition fmt_04d :: "int \<Rightarrow> string" where
  \<comment> \<open>\<^verbatim>\<open>f"{i:04d}"\<close>: at least four characters, the sign counted, zeros after the sign\<close>
  "fmt_04d i =
     (if i < 0 then CHR ''-'' # zfill 3 (str_nat (nat (- i))) else zfill 4 (str_nat (nat i)))"

definition lower_char :: "char \<Rightarrow> char" where
  \<comment> \<open>\<^verbatim>\<open>str.lower\<close> on the code points a \<^typ>\<open>char\<close> holds (0 to 255)\<close>
  "lower_char c =
     (let n = (of_char c :: nat)
      in if (65 \<le> n \<and> n \<le> 90) \<or> (192 \<le> n \<and> n \<le> 222 \<and> n \<noteq> 215)
         then char_of (n + 32) else c)"

definition lower :: "string \<Rightarrow> string" where
  "lower ks = map lower_char ks"

fun join :: "string \<Rightarrow> string list \<Rightarrow> string" where
  "join sep [] = []"
| "join sep [w] = w"
| "join sep (w # v # ws) = w @ sep @ join sep (v # ws)"

definition py_int :: "real \<Rightarrow> int" where
  \<comment> \<open>\<^verbatim>\<open>int(x)\<close> of a float: truncation towards zero\<close>
  "py_int r = (if 0 \<le> r then \<lfloor>r\<rfloor> else \<lceil>r\<rceil>)"

subsection \<open>Dictionaries and counters\<close>

datatype py_value =
    VStr string
  | VInt int
  | VFloat real
  | VStrs "string set"  \<comment> \<open>\<^verbatim>\<open>list(a_set)\<close>: the elements, in no order the code fixes\<close>

type_synonym py_dict = "(string \<times> py_value) list"

definition dict_merge :: "py_dict \<Rightarrow> py_dict \<Rightarrow> py_dict" where
  \<comment> \<open>\<^verbatim>\<open>{**base, **extra}\<close>: a key of \<open>extra\<close> replaces the value in place, a new key goes last\<close>
  "dict_merge base extra = fold (\<lambda>(k, v). AList.update k v) extra base"

fun counter_incr :: "'a \<Rightarrow> ('a \<times> nat) list \<Rightarrow> ('a \<times> nat) list" where
  "counter_incr k [] = [(k, 1)]"
| "counter_incr k ((k', c) # kcs) =
     (if k = k' then (k', Suc c) # kcs else (k', c) # counter_incr k kcs)"

definition counter_of :: "'a list \<Rightarrow> ('a \<times> nat) list" where
  \<comment> \<open>a \<^verbatim>\<open>Counter\<close> filled in a loop: keys in the order they were first seen\<close>
  "counter_of ks = foldl (\<lambda>acc k. counter_incr k acc) [] ks"

definition most_common :: "nat \<Rightarrow> ('a \<times> nat) list \<Rightarrow> ('a \<times> nat) list" where
  \<comment> \<open>\<^verbatim>\<open>Counter.most_common(n)\<close>: highest count first, equal counts in insertion order\<close>
  "most_common n kcs = take n (sort_key (\<lambda>(k, c). - int c) kcs)"

subsection \<open>Configuration and data model\<close>

record recorder_config =
  session_name :: string
  capture_screenshots :: bool
  capture_clipboard :: bool
  capture_keystrokes :: bool
  capture_scroll :: bool
  capture_mouse_moves :: bool
  debounce_interval :: real
  max_steps :: int
  screenshot_format :: string
  show_notifications :: bool
  auto_save_interval :: real

definition RecorderConfig :: "string \<Rightarrow> bool \<Rightarrow> recorder_config" where
  \<comment> \<open>the session name comes from the clock, \<open>has_pyperclip\<close> from the import of pyperclip\<close>
  "RecorderConfig session has_pyperclip =
     \<lparr>session_name = session,
      capture_screenshots = True,
      capture_clipboard = (True \<and> has_pyperclip),
      capture_keystrokes = True,
      capture_scroll = True,
      capture_mouse_moves = False,
      debounce_interval = 0.3,
      max_steps = 1000,
      screenshot_format = ''png'',
      show_notifications = False,
      auto_save_interval = 30\<rparr>"

datatype action_type =
    CLICK | RIGHT_CLICK | MIDDLE_CLICK | KEY_PRESS | KEY_COMBO | SCROLL
  | TEXT_INPUT | COPY | PASTE | APP_SWITCH | SYSTEM

fun action_value :: "action_type \<Rightarrow> string" where
  "action_value CLICK = ''click''"
| "action_value RIGHT_CLICK = ''right_click''"
| "action_value MIDDLE_CLICK = ''middle_click''"
| "action_value KEY_PRESS = ''key_press''"
| "action_value KEY_COMBO = ''key_combo''"
| "action_value SCROLL = ''scroll''"
| "action_value TEXT_INPUT = ''text_input''"
| "action_value COPY = ''copy''"
| "action_value PASTE = ''paste''"
| "action_value APP_SWITCH = ''app_switch''"
| "action_value SYSTEM = ''system''"

record application_info =
  name :: string
  bundle_id :: "string option"
  pid :: "int option"

text \<open>
  A step. \<open>position\<close> is the dictionary \<^verbatim>\<open>{"x": x, "y": y}\<close>, written as the pair
  \<open>(x, y)\<close>; \<open>element\<close> is never set by the recorder.
\<close>

record step =
  step_number :: int
  timestamp :: string
  action_type :: action_type
  position :: "(int \<times> int) option"
  element :: "py_dict option"
  application :: "application_info option"
  screenshot :: "string option"
  details :: py_dict

record step_dict =
  sd_step_number :: int
  sd_timestamp :: string
  sd_action_type :: string
  sd_position :: "(int \<times> int) option"
  sd_element :: "py_dict option"
  sd_application :: "application_info option"
  sd_screenshot :: "string option"
  sd_details :: py_dict

definition to_dict :: "step \<Rightarrow> step_dict" where
  "to_dict st =
     \<lparr>sd_step_number = step_number st,
      sd_timestamp = timestamp st,
      sd_action_type = action_value (action_type st),
      sd_position = position st,
      sd_element = element st,
      sd_application = application st,
      sd_screenshot = screenshot st,
      sd_details = details st\<rparr>"

subsection \<open>Files the recorder writes\<close>

record session_file =
  sf_session :: string
  sf_start_time :: "string option"
  sf_total_steps :: nat
  sf_steps :: "step_dict list"

datatype 'a file_content =
    No_file      \<comment> \<open>never written\<close>
  | Truncated    \<comment> \<open>opened for writing, and the write did not finish\<close>
  | Document 'a

record report =
  rp_session :: string
  rp_total_steps :: nat
  rp_action_summary :: "(string \<times> nat) list"
  rp_app_usage :: "(string \<times> nat) list"

datatype write_outcome =
    Written      \<comment> \<open>the file was opened and the whole text got out\<close>
  | Open_failed  \<comment> \<open>\<^verbatim>\<open>open(..., 'w')\<close> raised: the file is as it was\<close>
  | Dump_failed  \<comment> \<open>the file was opened, so emptied, and the write raised\<close>

subsection \<open>What a callback reads from outside\<close>

datatype app_query =
    Query_raised
  | No_frontmost
  | Frontmost "string option" "string option" "int option"
    \<comment> \<open>\<^verbatim>\<open>localizedName()\<close>, \<^verbatim>\<open>bundleIdentifier()\<close>, the process identifier if the object has one\<close>

datatype capture_outcome =
    Capture_raised
  | No_image
  | No_png_data
  | Png_data bool  \<comment> \<open>the result of \<^verbatim>\<open>writeToFile_atomically_\<close>, which the code does not look at\<close>

record env =
  now :: real                      \<comment> \<open>\<^verbatim>\<open>time.time()\<close>\<close>
  now_iso :: string                \<comment> \<open>\<^verbatim>\<open>datetime.now().isoformat()\<close>\<close>
  frontmost :: app_query
  capture :: capture_outcome
  has_pyperclip :: bool            \<comment> \<open>\<^verbatim>\<open>HAS_PYPERCLIP\<close>\<close>
  clipboard :: "string option"     \<comment> \<open>\<^verbatim>\<open>pyperclip.paste()\<close>; \<open>None\<close> when it raises\<close>
  tap_created :: bool              \<comment> \<open>whether \<^verbatim>\<open>CGEventTapCreate\<close> returned a tap\<close>
  steps_write :: write_outcome
  report_write :: write_outcome

datatype event_type =
    LeftMouseDown | RightMouseDown | OtherMouseDown | KeyDown | KeyUp
  | FlagsChanged | ScrollWheel | MouseMoved

record raw_event =
  location :: "real \<times> real"              \<comment> \<open>\<^verbatim>\<open>CGEventGetLocation\<close>\<close>
  keycode :: int                           \<comment> \<open>field \<^verbatim>\<open>kCGKeyboardEventKeycode\<close>\<close>
  unicode_string :: "nat \<times> string option"  \<comment> \<open>\<^verbatim>\<open>CGEventKeyboardGetUnicodeString\<close>: length and text\<close>
  scroll_delta :: int                      \<comment> \<open>field \<^verbatim>\<open>kCGScrollWheelEventDeltaAxis1\<close>\<close>

subsection \<open>The recorder\<close>

datatype error = RecursionError | SystemExit int

datatype outcome = Returned | Raised error

text \<open>
  The first seven fields are the attributes of the object; \<open>event_tap\<close> is \<open>None\<close>
  until a tap exists and then says whether it is enabled. The others are what the
  recorder leaves outside itself: the session file, the report, the names of the
  screenshot files it wrote, and whether the run loop is running.
\<close>

record recorder =
  config :: recorder_config
  steps :: "step list"
  step_counter :: int
  last_event_time :: real
  running :: bool
  event_tap :: "bool option"
  pressed_modifiers :: "string set"
  steps_json :: "session_file file_content"
  report_txt :: "report file_content"
  screenshot_files :: "string set"
  run_loop :: bool

definition modifier_keys :: "int \<rightharpoonup> string" where
  "modifier_keys = map_of [(56, ''shift''), (59, ''ctrl''), (58, ''alt''), (55, ''cmd'')]"

definition init :: "recorder_config \<Rightarrow> recorder" where
  "init cfg =
     \<lparr>config = cfg, steps = [], step_counter = 1, last_event_time = 0, running = False,
      event_tap = None, pressed_modifiers = {}, steps_json = No_file, report_txt = No_file,
      screenshot_files = {}, run_loop = False\<rparr>"

definition save :: "env \<Rightarrow> recorder \<Rightarrow> recorder" where
  "save e s =
     (case steps_write e of
        Written \<Rightarrow>
          s\<lparr>steps_json := Document
               \<lparr>sf_session = session_name (config s),
                sf_start_time = (if steps s \<noteq> [] then Some (timestamp (steps s ! 0)) else None),
                sf_total_steps = length (steps s),
                sf_steps = map to_dict (steps s)\<rparr>\<rparr>
      | Open_failed \<Rightarrow> s
      | Dump_failed \<Rightarrow> s\<lparr>steps_json := Truncated\<rparr>)"

definition generate_report :: "env \<Rightarrow> recorder \<Rightarrow> recorder" where
  "generate_report e s =
     (case report_write e of
        Written \<Rightarrow>
          s\<lparr>report_txt := Document
               \<lparr>rp_session = session_name (config s),
                rp_total_steps = length (steps s),
                rp_action_summary =
                  sort_key fst (counter_of (map (\<lambda>st. action_value (action_type st)) (steps s))),
                rp_app_usage =
                  map (\<lambda>(app, c). (take 25 app, c))
                    (most_common 5
                       (counter_of
                          (map (\<lambda>a. name a)
                             (filter (\<lambda>a. name a \<noteq> [])
                                (List.map_filter application (steps s))))))\<rparr>\<rparr>
      | Open_failed \<Rightarrow> s
      | Dump_failed \<Rightarrow> s\<lparr>report_txt := Truncated\<rparr>)"

text \<open>
  \<^verbatim>\<open>_add_step\<close>, \<^verbatim>\<open>stop\<close> and \<^verbatim>\<open>_record_system_event\<close> call each other. The first
  argument \<open>d\<close> is the number of further nested calls of \<^verbatim>\<open>stop\<close> from
  \<^verbatim>\<open>_add_step\<close> that the interpreter's stack still has room for; with no room left
  the call raises \<^verbatim>\<open>RecursionError\<close>. An exception leaves the attributes as they
  were when it was raised, so a raising call returns the state too.
\<close>

function add_step :: "nat \<Rightarrow> env \<Rightarrow> step \<Rightarrow> recorder \<Rightarrow> outcome \<times> recorder"
  and stop :: "nat \<Rightarrow> env \<Rightarrow> recorder \<Rightarrow> outcome \<times> recorder"
  and record_system_event :: "nat \<Rightarrow> env \<Rightarrow> string \<Rightarrow> py_dict \<Rightarrow> recorder \<Rightarrow> outcome \<times> recorder"
where
  "add_step d e st s =
     (if max_steps (config s) \<le> int (length (steps s)) then
        (case d of
           0 \<Rightarrow> (Raised RecursionError, s)
         | Suc d' \<Rightarrow> stop d' e s)
      else
        (let s1 = s\<lparr>steps := steps s @ [st], step_counter := step_counter s + 1\<rparr>
         in (Returned, if length (steps s1) mod 5 = 0 then save e s1 else s1)))"
| "stop d e s =
     (let s1 = s\<lparr>running := False, event_tap := map_option (\<lambda>_. False) (event_tap s)\<rparr>
      in case record_system_event d e ''recorder_stopped''
                [(''total_steps'', VInt (int (length (steps s1))))] s1 of
           (Raised err, s2) \<Rightarrow> (Raised err, s2)
         | (Returned, s2) \<Rightarrow> (Returned, (generate_report e (save e s2))\<lparr>run_loop := False\<rparr>))"
| "record_system_event d e event data s =
     add_step d e
       \<lparr>step_number = step_counter s, timestamp = now_iso e, action_type = SYSTEM,
        position = None, element = None, application = None, screenshot = None,
        details = dict_merge [(''event'', VStr event)] data\<rparr>
       s"
  by pat_completeness auto
termination
  by (relation "measure (\<lambda>c. case c of
          Inl (d, e, st, s) \<Rightarrow> 3 * d
        | Inr (Inl (d, e, s)) \<Rightarrow> 3 * d + 2
        | Inr (Inr (d, e, ev, data, s)) \<Rightarrow> 3 * d + 1)") auto

declare add_step.simps [simp del] stop.simps [simp del] record_system_event.simps [simp del]

definition get_active_application :: "env \<Rightarrow> application_info" where
  "get_active_application e =
     (case frontmost e of
        Frontmost nm bid p \<Rightarrow>
          \<lparr>name = (case nm of Some n \<Rightarrow> if n \<noteq> [] then n else ''Unknown'' | None \<Rightarrow> ''Unknown''),
           bundle_id = (case bid of Some b \<Rightarrow> if b \<noteq> [] then Some b else None | None \<Rightarrow> None),
           pid = p\<rparr>
      | _ \<Rightarrow> \<lparr>name = ''Unknown'', bundle_id = None, pid = None\<rparr>)"

definition screenshot_filename :: "recorder \<Rightarrow> string" where
  "screenshot_filename s = ''screenshot_'' @ fmt_04d (step_counter s) @ ''.png''"

definition take_screenshot :: "env \<Rightarrow> recorder \<Rightarrow> string option \<times> recorder" where
  "take_screenshot e s =
     (case capture e of
        Png_data on_disk \<Rightarrow>
          (Some (''screenshots/'' @ screenshot_filename s),
           if on_disk then s\<lparr>screenshot_files := insert (screenshot_filename s) (screenshot_files s)\<rparr>
           else s)
      | _ \<Rightarrow> (None, s))"

definition handle_click :: "nat \<Rightarrow> env \<Rightarrow> raw_event \<Rightarrow> action_type \<Rightarrow> recorder \<Rightarrow> outcome \<times> recorder" where
  "handle_click d e ev act s =
     (let (x, y) = (py_int (fst (location ev)), py_int (snd (location ev)));
          app_info = get_active_application e;
          (shot, s1) = (if capture_screenshots (config s) then take_screenshot e s else (None, s))
      in add_step d e
           \<lparr>step_number = step_counter s1, timestamp = now_iso e, action_type = act,
            position = Some (x, y), element = None, application = Some app_info,
            screenshot = shot,
            details = [(''mouse_button'', VStr (if act = CLICK then ''left'' else ''right'')),
                       (''modifiers'', VStrs (pressed_modifiers s1))]\<rparr>
           s1)"

definition keycode_to_name :: "int \<Rightarrow> string" where
  "keycode_to_name k =
     (case map_of
        [(36, ''Enter''), (48, ''Tab''), (49, ''Space''), (51, ''Delete''),
         (53, ''Escape''), (76, ''Enter''), (96, ''F5''), (97, ''F6''),
         (98, ''F7''), (99, ''F3''), (100, ''F8''), (101, ''F9''),
         (109, ''F10''), (103, ''F11''), (111, ''F12''), (105, ''F4''),
         (107, ''F2''), (113, ''F1''), (114, ''Help''), (115, ''Home''),
         (116, ''PageUp''), (117, ''ForwardDelete''), (118, ''F4''),
         (119, ''End''), (120, ''F2''), (121, ''PageDown''), (122, ''F1''),
         (123, ''Left''), (124, ''Right''), (125, ''Down''), (126, ''Up'')] k of
        Some nm \<Rightarrow> nm
      | None \<Rightarrow> ''Key_'' @ str_int k)"

definition resolve_key :: "raw_event \<Rightarrow> string" where
  \<comment> \<open>the text of the key, or the name of its code when the event carries no text\<close>
  "resolve_key ev =
     (case unicode_string ev of
        (len, Some ks) \<Rightarrow> if ks = [] \<or> len = 0 then keycode_to_name (keycode ev) else ks
      | (len, None) \<Rightarrow> keycode_to_name (keycode ev))"

definition handle_copy_action :: "nat \<Rightarrow> env \<Rightarrow> application_info \<Rightarrow> recorder \<Rightarrow> outcome \<times> recorder" where
  \<comment> \<open>the bare \<^verbatim>\<open>except: pass\<close> swallows whatever the body raises\<close>
  "handle_copy_action d e app_info s =
     (if has_pyperclip e then
        (case clipboard e of
           None \<Rightarrow> (Returned, s)
         | Some content \<Rightarrow>
             if content \<noteq> [] then
               (Returned,
                snd (add_step d e
                  \<lparr>step_number = step_counter s, timestamp = now_iso e, action_type = COPY,
                   position = None, element = None, application = Some app_info,
                   screenshot = None,
                   details = [(''content_preview'', VStr (take 100 content)),
                              (''content_length'', VInt (int (length content)))]\<rparr>
                  s))
             else (Returned, s))
      else (Returned, s))"

definition handle_paste_action :: "nat \<Rightarrow> env \<Rightarrow> application_info \<Rightarrow> recorder \<Rightarrow> outcome \<times> recorder" where
  "handle_paste_action d e app_info s =
     add_step d e
       \<lparr>step_number = step_counter s, timestamp = now_iso e, action_type = PASTE,
        position = None, element = None, application = Some app_info,
        screenshot = None, details = []\<rparr>
       s"

definition handle_key_event :: "nat \<Rightarrow> env \<Rightarrow> raw_event \<Rightarrow> recorder \<Rightarrow> outcome \<times> recorder" where
  "handle_key_event d e ev s =
     (if \<not> capture_keystrokes (config s) then (Returned, s)
      else if keycode ev \<in> dom modifier_keys then (Returned, s)
      else
        (let key_str = resolve_key ev;
             app_info = get_active_application e
         in if capture_clipboard (config s) \<and> pressed_modifiers s = {''cmd''}
               \<and> key_str \<noteq> [] \<and> lower key_str = ''c''
            then handle_copy_action d e app_info s
            else if capture_clipboard (config s) \<and> pressed_modifiers s = {''cmd''}
               \<and> key_str \<noteq> [] \<and> lower key_str = ''v''
            then handle_paste_action d e app_info s
            else
              (let (act, key_combo) =
                     (if pressed_modifiers s \<noteq> {}
                      then (KEY_COMBO,
                            join ''+'' (sorted_list_of_set (pressed_modifiers s)) @ ''+'' @ key_str)
                      else (KEY_PRESS, key_str))
               in add_step d e
                    \<lparr>step_number = step_counter s, timestamp = now_iso e, action_type = act,
                     position = None, element = None, application = Some app_info,
                     screenshot = None,
                     details = [(''key'', VStr key_combo), (''keycode'', VInt (keycode ev)),
                                (''modifiers'', VStrs (pressed_modifiers s))]\<rparr>
                    s)))"

definition handle_modifier_event :: "raw_event \<Rightarrow> recorder \<Rightarrow> recorder" where
  "handle_modifier_event ev s =
     (case modifier_keys (keycode ev) of
        Some modifier_name \<Rightarrow>
          if modifier_name \<in> pressed_modifiers s
          then s\<lparr>pressed_modifiers := pressed_modifiers s - {modifier_name}\<rparr>
          else s\<lparr>pressed_modifiers := insert modifier_name (pressed_modifiers s)\<rparr>
      | None \<Rightarrow> s)"

definition handle_scroll_event :: "nat \<Rightarrow> env \<Rightarrow> raw_event \<Rightarrow> recorder \<Rightarrow> outcome \<times> recorder" where
  "handle_scroll_event d e ev s =
     (let scroll_y = scroll_delta ev
      in if \<bar>real_of_int scroll_y\<bar> < 0.5 then (Returned, s)
         else
           (let (x, y) = (py_int (fst (location ev)), py_int (snd (location ev)));
                app_info = get_active_application e
            in add_step d e
                 \<lparr>step_number = step_counter s, timestamp = now_iso e, action_type = SCROLL,
                  position = Some (x, y), element = None, application = Some app_info,
                  screenshot = None,
                  details = [(''delta_y'', VFloat (real_of_int scroll_y)),
                             (''direction'', VStr (if scroll_y > 0 then ''up'' else ''down''))]\<rparr>
                 s))"

definition event_callback :: "nat \<Rightarrow> env \<Rightarrow> event_type \<Rightarrow> raw_event \<Rightarrow> recorder \<Rightarrow> outcome \<times> recorder" where
  "event_callback d e ety ev s =
     (let current_time = now e
      in if current_time - last_event_time s < debounce_interval (config s) then (Returned, s)
         else
           (let s1 = s\<lparr>last_event_time := current_time\<rparr>
            in if ety = LeftMouseDown then handle_click d e ev CLICK s1
               else if ety = RightMouseDown then handle_click d e ev RIGHT_CLICK s1
               else if ety = KeyDown then handle_key_event d e ev s1
               else if ety = FlagsChanged then (Returned, handle_modifier_event ev s1)
               else if ety = ScrollWheel \<and> capture_scroll (config s1) then handle_scroll_event d e ev s1
               else (Returned, s1)))"

definition event_mask :: "recorder_config \<Rightarrow> event_type set" where
  \<comment> \<open>the kinds of event the tap of \<^verbatim>\<open>_setup_event_tap\<close> subscribes to\<close>
  "event_mask cfg =
     {LeftMouseDown, RightMouseDown, KeyDown, FlagsChanged}
       \<union> (if capture_scroll cfg then {ScrollWheel} else {})"

definition setup_event_tap :: "env \<Rightarrow> recorder \<Rightarrow> outcome \<times> recorder" where
  "setup_event_tap e s =
     (if \<not> tap_created e then (Raised (SystemExit 1), s)
      else (Returned, s\<lparr>event_tap := Some True\<rparr>))"

definition start :: "nat \<Rightarrow> env \<Rightarrow> recorder \<Rightarrow> outcome \<times> recorder" where
  \<comment> \<open>the timer thread that \<^verbatim>\<open>start\<close> launches runs beside this path and is not modelled\<close>
  "start d e s =
     (let s1 = s\<lparr>running := True\<rparr>
      in case setup_event_tap e s1 of
           (Raised err, s2) \<Rightarrow> (Raised err, s2)
         | (Returned, s2) \<Rightarrow>
             (case record_system_event d e ''recorder_started'' [] s2 of
                (Raised err, s3) \<Rightarrow> (Raised err, s3)
              | (Returned, s3) \<Rightarrow> (Returned, s3\<lparr>run_loop := True\<rparr>)))"

subsection \<open>Sessions as sequences of calls\<close>

text \<open>
  A session is the initial recorder followed by calls of \<^verbatim>\<open>start\<close>, of the event
  callback and of \<^verbatim>\<open>stop\<close>, in any order. A call that raises leaves the state it
  had reached, and later calls go on from there, as the callbacks after a failed
  callback do.
\<close>

datatype call =
    Start nat env
  | Event nat env event_type raw_event
  | Stop nat env

fun perform :: "recorder \<Rightarrow> call \<Rightarrow> recorder" where
  "perform s (Start d e) = snd (start d e s)"
| "perform s (Event d e ety ev) = snd (event_callback d e ety ev s)"
| "perform s (Stop d e) = snd (stop d e s)"

definition session :: "recorder_config \<Rightarrow> call list \<Rightarrow> recorder" where
  "session cfg calls = foldl perform (init cfg) calls"

subsection \<open>Properties of states and of arrival times\<close>

definition numbered :: "recorder \<Rightarrow> bool" where
  \<comment> \<open>the recorded steps are numbered 1, 2, 3, ... and the counter is the next number\<close>
  "numbered s \<longleftrightarrow>
     map step_number (steps s) = map int [1..<Suc (length (steps s))]
     \<and> step_counter s = int (length (steps s)) + 1"

fun spaced :: "real \<Rightarrow> real \<Rightarrow> env list \<Rightarrow> bool" where
  \<comment> \<open>every callback of the list arrives at least the interval after the one accepted before it\<close>
  "spaced interval previous [] = True"
| "spaced interval previous (e # es) =
     (\<not> now e - previous < interval \<and> spaced interval (now e) es)"

definition deliver :: "nat \<Rightarrow> event_type \<Rightarrow> raw_event \<Rightarrow> recorder \<Rightarrow> env list \<Rightarrow> recorder" where
  \<comment> \<open>the same event delivered to the callback once for each entry of the list\<close>
  "deliver d ety ev s es = foldl (\<lambda>s' e. snd (event_callback d e ety ev s')) s es"

subsection \<open>Sample inputs\<close>

definition sample_config :: recorder_config where
  "sample_config = RecorderConfig ''Session_2026-01-01_10-00-00'' True"

definition sample_env :: "real \<Rightarrow> env" where
  "sample_env t =
     \<lparr>now = t, now_iso = ''2026-01-01T10:00:00'',
      frontmost = Frontmost (Some ''Finder'') (Some ''com.apple.finder'') (Some 321),
      capture = Png_data True, has_pyperclip = True, clipboard = Some ''hello'',
      tap_created = True, steps_write = Written, report_write = Written\<rparr>"

definition sample_event :: "int \<Rightarrow> string \<Rightarrow> raw_event" where
  "sample_event code text =
     \<lparr>location = (10, 20), keycode = code, unicode_string = (length text, Some text),
      scroll_delta = 3\<rparr>"

section \<open>Effects of the operations\<close>

text \<open>
  What \<^verbatim>\<open>_add_step\<close> and \<^verbatim>\<open>stop\<close> do below the step limit and at it, and which
  attributes each handler leaves alone.
\<close>

lemma add_step_below:
  "int (length (steps s)) < max_steps (config s) \<Longrightarrow>
   add_step d e st s =
     (Returned,
      if Suc (length (steps s)) mod 5 = 0
      then save e (s\<lparr>steps := steps s @ [st], step_counter := step_counter s + 1\<rparr>)
      else s\<lparr>steps := steps s @ [st], step_counter := step_counter s + 1\<rparr>)"
  by (simp add: add_step.simps Let_def)

lemma add_step_at_limit:
  "max_steps (config s) \<le> int (length (steps s)) \<Longrightarrow>
   add_step d e st s =
     (Raised RecursionError,
      if d = 0 then s
      else s\<lparr>running := False, event_tap := map_option (\<lambda>_. False) (event_tap s)\<rparr>)"
proof (induction d arbitrary: st s)
  case 0
  then show ?case by (simp add: add_step.simps)
next
  case (Suc d)
  let ?h = "s\<lparr>running := False, event_tap := map_option (\<lambda>_. False) (event_tap s)\<rparr>"
  have lim: "max_steps (config ?h) \<le> int (length (steps ?h))"
    using Suc.prems by simp
  have "stop d e s = (Raised RecursionError, ?h)"
    by (simp add: stop.simps [of d e s] record_system_event.simps Suc.IH [OF lim]
        option.map_comp comp_def Let_def)
  with Suc.prems show ?case by (simp add: add_step.simps [of "Suc d"])
qed

lemma save_frame [simp]:
  "steps (save e s) = steps s" "step_counter (save e s) = step_counter s"
  "config (save e s) = config s" "last_event_time (save e s) = last_event_time s"
  "pressed_modifiers (save e s) = pressed_modifiers s" "running (save e s) = running s"
  "event_tap (save e s) = event_tap s" "report_txt (save e s) = report_txt s"
  "screenshot_files (save e s) = screenshot_files s"
  by (simp_all add: save_def split: write_outcome.split)

lemma generate_report_frame [simp]:
  "steps (generate_report e s) = steps s" "step_counter (generate_report e s) = step_counter s"
  "config (generate_report e s) = config s"
  "last_event_time (generate_report e s) = last_event_time s"
  "pressed_modifiers (generate_report e s) = pressed_modifiers s"
  "running (generate_report e s) = running s" "event_tap (generate_report e s) = event_tap s"
  "steps_json (generate_report e s) = steps_json s"
  "screenshot_files (generate_report e s) = screenshot_files s"
  by (simp_all add: generate_report_def split: write_outcome.split)

lemma add_step_steps:
  "steps (snd (add_step d e st s)) =
     (if int (length (steps s)) < max_steps (config s) then steps s @ [st] else steps s)"
  by (simp add: add_step_below add_step_at_limit)

lemma add_step_counter:
  "step_counter (snd (add_step d e st s)) =
     (if int (length (steps s)) < max_steps (config s) then step_counter s + 1 else step_counter s)"
  by (simp add: add_step_below add_step_at_limit)

lemma add_step_frame [simp]:
  "config (snd (add_step d e st s)) = config s"
  "last_event_time (snd (add_step d e st s)) = last_event_time s"
  "pressed_modifiers (snd (add_step d e st s)) = pressed_modifiers s"
  "screenshot_files (snd (add_step d e st s)) = screenshot_files s"
  by (cases "int (length (steps s)) < max_steps (config s)";
      simp add: add_step_below add_step_at_limit)+

lemma stop_below:
  "int (length (steps s)) < max_steps (config s) \<Longrightarrow>
   stop d e s =
     (Returned,
      (generate_report e
         (save e
            (snd (add_step d e
               \<lparr>step_number = step_counter s, timestamp = now_iso e, action_type = SYSTEM,
                position = None, element = None, application = None, screenshot = None,
                details = [(''event'', VStr ''recorder_stopped''),
                           (''total_steps'', VInt (int (length (steps s))))]\<rparr>
               (s\<lparr>running := False, event_tap := map_option (\<lambda>_. False) (event_tap s)\<rparr>)))))
       \<lparr>run_loop := False\<rparr>)"
  by (simp add: stop.simps [of d e s] record_system_event.simps Let_def add_step_below
      dict_merge_def)

lemma stop_at_limit:
  "max_steps (config s) \<le> int (length (steps s)) \<Longrightarrow>
   stop d e s =
     (Raised RecursionError,
      s\<lparr>running := False, event_tap := map_option (\<lambda>_. False) (event_tap s)\<rparr>)"
  by (simp add: stop.simps [of d e s] record_system_event.simps Let_def add_step_at_limit
      option.map_comp comp_def)

lemma take_screenshot_frame [simp]:
  "steps (snd (take_screenshot e s)) = steps s"
  "step_counter (snd (take_screenshot e s)) = step_counter s"
  "config (snd (take_screenshot e s)) = config s"
  "last_event_time (snd (take_screenshot e s)) = last_event_time s"
  "pressed_modifiers (snd (take_screenshot e s)) = pressed_modifiers s"
  "steps_json (snd (take_screenshot e s)) = steps_json s"
  "report_txt (snd (take_screenshot e s)) = report_txt s"
  by (simp_all add: take_screenshot_def split: capture_outcome.split)

lemma handle_click_steps:
  "steps (snd (handle_click d e ev act s)) =
     (if int (length (steps s)) < max_steps (config s) then
        steps s @
        [\<lparr>step_number = step_counter s, timestamp = now_iso e, action_type = act,
          position = Some (py_int (fst (location ev)), py_int (snd (location ev))),
          element = None, application = Some (get_active_application e),
          screenshot = (if capture_screenshots (config s) then fst (take_screenshot e s) else None),
          details = [(''mouse_button'', VStr (if act = CLICK then ''left'' else ''right'')),
                     (''modifiers'', VStrs (pressed_modifiers s))]\<rparr>]
      else steps s)"
  by (simp add: handle_click_def Let_def split_def add_step_steps)

lemma handle_click_frame [simp]:
  "config (snd (handle_click d e ev act s)) = config s"
  "last_event_time (snd (handle_click d e ev act s)) = last_event_time s"
  "pressed_modifiers (snd (handle_click d e ev act s)) = pressed_modifiers s"
  by (simp_all add: handle_click_def Let_def split_def)

lemma handle_key_event_frame [simp]:
  "config (snd (handle_key_event d e ev s)) = config s"
  "last_event_time (snd (handle_key_event d e ev s)) = last_event_time s"
  "pressed_modifiers (snd (handle_key_event d e ev s)) = pressed_modifiers s"
  by (simp_all add: handle_key_event_def handle_copy_action_def handle_paste_action_def
      Let_def split_def split: option.split)

lemma handle_scroll_event_frame [simp]:
  "config (snd (handle_scroll_event d e ev s)) = config s"
  "last_event_time (snd (handle_scroll_event d e ev s)) = last_event_time s"
  "pressed_modifiers (snd (handle_scroll_event d e ev s)) = pressed_modifiers s"
  by (simp_all add: handle_scroll_event_def Let_def split_def)

lemma handle_modifier_event_frame [simp]:
  "config (handle_modifier_event ev s) = config s"
  "last_event_time (handle_modifier_event ev s) = last_event_time s"
  "steps (handle_modifier_event ev s) = steps s"
  by (simp_all add: handle_modifier_event_def split: option.split)

lemma add_step_length:
  "length (steps (snd (add_step d e st s))) \<le> Suc (length (steps s))"
  by (simp add: add_step_steps)

lemma handle_key_event_length:
  "length (steps (snd (handle_key_event d e ev s))) \<le> Suc (length (steps s))"
  by (simp add: handle_key_event_def handle_copy_action_def handle_paste_action_def
      Let_def split_def add_step_length split: option.split)

lemma handle_scroll_event_length:
  "length (steps (snd (handle_scroll_event d e ev s))) \<le> Suc (length (steps s))"
  by (simp add: handle_scroll_event_def Let_def split_def add_step_length)

lemma handle_click_length:
  "length (steps (snd (handle_click d e ev act s))) \<le> Suc (length (steps s))"
  by (simp add: handle_click_steps)

lemma event_callback_dropped:
  "now e - last_event_time s < debounce_interval (config s) \<Longrightarrow>
   event_callback d e ety ev s = (Returned, s)"
  by (simp add: event_callback_def)

lemma event_callback_accepted:
  "\<not> now e - last_event_time s < debounce_interval (config s) \<Longrightarrow>
   last_event_time (snd (event_callback d e ety ev s)) = now e"
  by (simp add: event_callback_def Let_def)

lemma event_callback_config [simp]:
  "config (snd (event_callback d e ety ev s)) = config s"
  by (simp add: event_callback_def Let_def)

lemma event_callback_length:
  "length (steps (snd (event_callback d e ety ev s))) \<le> Suc (length (steps s))"
proof -
  have "\<And>t. length (steps (snd (handle_click d e ev CLICK (s\<lparr>last_event_time := t\<rparr>))))
          \<le> Suc (length (steps s))"
       "\<And>t. length (steps (snd (handle_click d e ev RIGHT_CLICK (s\<lparr>last_event_time := t\<rparr>))))
          \<le> Suc (length (steps s))"
       "\<And>t. length (steps (snd (handle_key_event d e ev (s\<lparr>last_event_time := t\<rparr>))))
          \<le> Suc (length (steps s))"
       "\<And>t. length (steps (snd (handle_scroll_event d e ev (s\<lparr>last_event_time := t\<rparr>))))
          \<le> Suc (length (steps s))"
    using handle_click_length [of d e ev _ "s\<lparr>last_event_time := _\<rparr>"]
      handle_key_event_length [of d e ev "s\<lparr>last_event_time := _\<rparr>"]
      handle_scroll_event_length [of d e ev "s\<lparr>last_event_time := _\<rparr>"]
    by simp_all
  then show ?thesis
    by (simp add: event_callback_def Let_def)
qed

section \<open>Sample sessions\<close>

lemmas sample_defs = sample_config_def sample_env_def sample_event_def RecorderConfig_def

lemmas run_defs = session_def init_def start_def setup_event_tap_def event_callback_def
  handle_click_def take_screenshot_def screenshot_filename_def get_active_application_def
  record_system_event.simps add_step.simps dict_merge_def Let_def save_def py_int_def

section \<open>Step numbers\<close>

lemma numbered_frame:
  "steps s' = steps s \<Longrightarrow> step_counter s' = step_counter s \<Longrightarrow> numbered s \<Longrightarrow> numbered s'"
  by (simp add: numbered_def)

lemma numbered_add_step:
  "numbered s \<Longrightarrow> step_number st = step_counter s \<Longrightarrow> numbered (snd (add_step d e st s))"
  by (simp add: numbered_def add_step_steps add_step_counter)

lemma numbered_handle_click:
  "numbered s \<Longrightarrow> numbered (snd (handle_click d e ev act s))"
  unfolding handle_click_def Let_def split_def
  by (rule numbered_add_step) (auto elim: numbered_frame [rotated 2])

lemma numbered_stop:
  assumes n: "numbered s"
  shows "numbered (snd (stop d e s))"
proof (cases "int (length (steps s)) < max_steps (config s)")
  case True
  let ?h = "s\<lparr>running := False, event_tap := map_option (\<lambda>_. False) (event_tap s)\<rparr>"
  have "numbered ?h" by (rule numbered_frame [OF _ _ n]) simp_all
  then have a: "numbered (snd (add_step d e
               \<lparr>step_number = step_counter s, timestamp = now_iso e, action_type = SYSTEM,
                position = None, element = None, application = None, screenshot = None,
                details = [(''event'', VStr ''recorder_stopped''),
                           (''total_steps'', VInt (int (length (steps s))))]\<rparr> ?h))"
    by (rule numbered_add_step) simp
  show ?thesis
    unfolding stop_below [OF True] by (rule numbered_frame [OF _ _ a]) simp_all
next
  case False
  then show ?thesis
    using n by (simp add: stop_at_limit numbered_frame [OF _ _ n])
qed

lemma record_system_event_eq:
  "record_system_event d e event [] s =
     add_step d e
       \<lparr>step_number = step_counter s, timestamp = now_iso e, action_type = SYSTEM,
        position = None, element = None, application = None, screenshot = None,
        details = [(''event'', VStr event)]\<rparr> s"
  by (simp add: record_system_event.simps dict_merge_def)

lemma numbered_start:
  assumes n: "numbered s"
  shows "numbered (snd (start d e s))"
proof (cases "tap_created e")
  case False
  then show ?thesis
    by (simp add: start_def setup_event_tap_def numbered_frame [OF _ _ n])
next
  case True
  let ?s2 = "s\<lparr>running := True, event_tap := Some True\<rparr>"
  have h: "numbered ?s2" by (rule numbered_frame [OF _ _ n]) simp_all
  have a: "numbered (snd (record_system_event d e ''recorder_started'' [] ?s2))"
    unfolding record_system_event_eq by (rule numbered_add_step [OF h]) simp
  obtain r s3 where r: "record_system_event d e ''recorder_started'' [] ?s2 = (r, s3)"
    by (cases "record_system_event d e ''recorder_started'' [] ?s2")
  with a have s3: "numbered s3" by simp
  have "numbered (s3\<lparr>run_loop := True\<rparr>)" by (rule numbered_frame [OF _ _ s3]) simp_all
  with s3 show ?thesis using True r
    by (cases r) (simp_all add: start_def setup_event_tap_def)
qed

lemma numbered_handle_copy_action:
  "numbered s \<Longrightarrow> numbered (snd (handle_copy_action d e a s))"
  by (simp add: handle_copy_action_def numbered_add_step split: option.split)

lemma numbered_handle_paste_action:
  "numbered s \<Longrightarrow> numbered (snd (handle_paste_action d e a s))"
  by (simp add: handle_paste_action_def numbered_add_step)

lemma numbered_handle_key_event:
  "numbered s \<Longrightarrow> numbered (snd (handle_key_event d e ev s))"
  by (simp add: handle_key_event_def Let_def split_def numbered_handle_copy_action
      numbered_handle_paste_action numbered_add_step)

lemma numbered_handle_scroll_event:
  "numbered s \<Longrightarrow> numbered (snd (handle_scroll_event d e ev s))"
  by (simp add: handle_scroll_event_def Let_def split_def numbered_add_step)

lemma numbered_handle_modifier_event:
  "numbered s \<Longrightarrow> numbered (handle_modifier_event ev s)"
  by (erule numbered_frame [rotated 2])
    (simp_all add: handle_modifier_event_def split: option.split)

lemma numbered_event_callback:
  assumes n: "numbered s"
  shows "numbered (snd (event_callback d e ety ev s))"
proof -
  have n1: "numbered (s\<lparr>last_event_time := now e\<rparr>)"
    by (rule numbered_frame [OF _ _ n]) simp_all
  show ?thesis
    using n n1
    by (simp add: event_callback_def Let_def numbered_handle_click numbered_handle_key_event
        numbered_handle_scroll_event numbered_handle_modifier_event)
qed

lemma numbered_init: "numbered (init cfg)"
  by (simp add: numbered_def init_def)

lemma numbered_perform: "numbered s \<Longrightarrow> numbered (perform s c)"
  by (cases c) (simp_all add: numbered_start numbered_event_callback numbered_stop)

lemma numbered_foldl: "numbered s \<Longrightarrow> numbered (foldl perform s calls)"
  by (induction calls arbitrary: s) (simp_all add: numbered_perform)

text \<open>
  C3. In every session, whatever calls are made and however they end, the steps recorded
  so far carry the numbers 1, 2, 3, ... in order (so they start at 1, increase strictly and
  have neither duplicates nor gaps), and the counter is the number of the next step: every
  appended step took the value of the counter, which then went up by one.
\<close>

theorem step_numbers_count_from_one:
  "map step_number (steps (session cfg calls))
     = map int [1..<Suc (length (steps (session cfg calls)))]
   \<and> step_counter (session cfg calls) = int (length (steps (session cfg calls))) + 1"
  using numbered_foldl [OF numbered_init, of cfg calls]
  by (simp add: session_def numbered_def)

section \<open>The step limit\<close>

lemma click_at_limit:
  assumes lim: "max_steps (config s) \<le> int (length (steps s))"
    and acc: "\<not> now e - last_event_time s < debounce_interval (config s)"
  shows "fst (event_callback d e LeftMouseDown ev s) = Raised RecursionError"
    and "steps (snd (event_callback d e LeftMouseDown ev s)) = steps s"
    and "steps_json (snd (event_callback d e LeftMouseDown ev s)) = steps_json s"
    and "report_txt (snd (event_callback d e LeftMouseDown ev s)) = report_txt s"
proof -
  let ?s1 = "s\<lparr>last_event_time := now e\<rparr>"
  let ?s2 = "snd (if capture_screenshots (config ?s1) then take_screenshot e ?s1
                   else (None, ?s1))"
  have lim2: "max_steps (config ?s2) \<le> int (length (steps ?s2))"
    using lim by (cases "capture_screenshots (config s)") simp_all
  have cb: "event_callback d e LeftMouseDown ev s = handle_click d e ev CLICK ?s1"
    using acc by (simp add: event_callback_def Let_def)
  obtain st where hc: "handle_click d e ev CLICK ?s1 = add_step d e st ?s2"
    by (simp add: handle_click_def Let_def split_def)
  note eq = cb hc add_step_at_limit [OF lim2]
  show "fst (event_callback d e LeftMouseDown ev s) = Raised RecursionError"
    unfolding eq by simp
  show "steps (snd (event_callback d e LeftMouseDown ev s)) = steps s"
    unfolding eq by (cases "capture_screenshots (config s)") simp_all
  show "steps_json (snd (event_callback d e LeftMouseDown ev s)) = steps_json s"
    unfolding eq by (cases "capture_screenshots (config s)") simp_all
  show "report_txt (snd (event_callback d e LeftMouseDown ev s)) = report_txt s"
    unfolding eq by (cases "capture_screenshots (config s)") simp_all
qed

text \<open>
  C1. With \<open>max_steps = 2\<close> the session is started, which records the
  \<open>recorder_started\<close> step, and three clicks arrive a second apart. The first click is
  recorded and fills the list. The second does not end in an orderly stop:
  \<^verbatim>\<open>_add_step\<close> calls \<^verbatim>\<open>stop\<close>, which records its \<open>recorder_stopped\<close> step
  through \<^verbatim>\<open>_add_step\<close>, which finds the list still full and calls \<^verbatim>\<open>stop\<close>
  again. Whatever room the stack has, the callback ends in \<^verbatim>\<open>RecursionError\<close>. After
  all three clicks the recorder holds the two steps it had, no terminal step; the session
  file was never written and no report was made.
\<close>

theorem max_steps_reached_raises:
  "(\<forall>d. fst (event_callback d (sample_env 1002) LeftMouseDown (sample_event 0 [])
           (session (sample_config\<lparr>max_steps := 2\<rparr>)
              [Start 3 (sample_env 1000),
               Event 3 (sample_env 1001) LeftMouseDown (sample_event 0 [])]))
         = Raised RecursionError)
   \<and> (let s = session (sample_config\<lparr>max_steps := 2\<rparr>)
                 [Start 3 (sample_env 1000),
                  Event 3 (sample_env 1001) LeftMouseDown (sample_event 0 []),
                  Event 3 (sample_env 1002) LeftMouseDown (sample_event 0 []),
                  Event 3 (sample_env 1003) LeftMouseDown (sample_event 0 [])]
      in map action_type (steps s) = [SYSTEM, CLICK]
         \<and> steps_json s = No_file
         \<and> report_txt s = No_file)"
proof (intro conjI allI)
  fix d
  let ?s = "session (sample_config\<lparr>max_steps := 2\<rparr>)
              [Start 3 (sample_env 1000),
               Event 3 (sample_env 1001) LeftMouseDown (sample_event 0 [])]"
  have lim: "max_steps (config ?s) \<le> int (length (steps ?s))"
    by (simp add: sample_defs run_defs)
  have acc: "\<not> now (sample_env 1002) - last_event_time ?s < debounce_interval (config ?s)"
    by (simp add: sample_defs run_defs)
  from lim acc
  show "fst (event_callback d (sample_env 1002) LeftMouseDown (sample_event 0 []) ?s)
          = Raised RecursionError"
    by (rule click_at_limit)
next
  show "let s = session (sample_config\<lparr>max_steps := 2\<rparr>)
                 [Start 3 (sample_env 1000),
                  Event 3 (sample_env 1001) LeftMouseDown (sample_event 0 []),
                  Event 3 (sample_env 1002) LeftMouseDown (sample_event 0 []),
                  Event 3 (sample_env 1003) LeftMouseDown (sample_event 0 [])]
        in map action_type (steps s) = [SYSTEM, CLICK]
           \<and> steps_json s = No_file
           \<and> report_txt s = No_file"
    by (simp add: sample_defs run_defs stop.simps)
qed

section \<open>Stopping and saving\<close>

text \<open>
  What \<^verbatim>\<open>stop\<close> leaves on disk depends on the file system: when the session file
  cannot be opened for writing, \<^verbatim>\<open>save\<close> catches the exception and only reports
  it, and \<^verbatim>\<open>stop\<close> returns with the file as it was (here: none).
\<close>

lemma stop_when_write_fails:
  "running (session sample_config
      [Start 3 (sample_env 1000),
       Event 3 (sample_env 1001) LeftMouseDown (sample_event 0 [])])
   \<and> int (length (steps (session sample_config
      [Start 3 (sample_env 1000),
       Event 3 (sample_env 1001) LeftMouseDown (sample_event 0 [])])))
       < max_steps (config (session sample_config
      [Start 3 (sample_env 1000),
       Event 3 (sample_env 1001) LeftMouseDown (sample_event 0 [])]))
   \<and> fst (stop 3 ((sample_env 1002)\<lparr>steps_write := Open_failed\<rparr>)
        (session sample_config
           [Start 3 (sample_env 1000),
            Event 3 (sample_env 1001) LeftMouseDown (sample_event 0 [])])) = Returned
   \<and> steps_json (snd (stop 3 ((sample_env 1002)\<lparr>steps_write := Open_failed\<rparr>)
        (session sample_config
           [Start 3 (sample_env 1000),
            Event 3 (sample_env 1001) LeftMouseDown (sample_event 0 [])]))) = No_file"
  by (simp add: sample_defs run_defs stop.simps generate_report_def)

text \<open>
  C2. When fewer than \<open>max_steps\<close> steps are recorded and the session file
  can be written, \<^verbatim>\<open>stop\<close> returns, and the file it leaves holds every step
  recorded before followed by one last step: a SYSTEM step whose details give the event
  \<open>recorder_stopped\<close> and, as \<open>total_steps\<close>, the number of steps recorded before it.
\<close>

theorem stop_persists_terminal_step:
  assumes "int (length (steps s)) < max_steps (config s)"
    and "steps_write e = Written"
  shows "\<exists>doc t.
           fst (stop d e s) = Returned
         \<and> steps (snd (stop d e s)) = steps s @ [t]
         \<and> steps_json (snd (stop d e s)) = Document doc
         \<and> sf_steps doc = map to_dict (steps s) @ [to_dict t]
         \<and> last (sf_steps doc) = to_dict t
         \<and> sf_total_steps doc = Suc (length (steps s))
         \<and> action_type t = SYSTEM
         \<and> step_number t = step_counter s
         \<and> details t = [(''event'', VStr ''recorder_stopped''),
                         (''total_steps'', VInt (int (length (steps s))))]"
  using assms
  by (simp add: stop_below add_step_below save_def)

theorem stop_persists_terminal_step_witness:
  "\<exists>doc. steps_json (snd (stop 3 (sample_env 1002)
            (session sample_config
               [Start 3 (sample_env 1000),
                Event 3 (sample_env 1001) LeftMouseDown (sample_event 0 [])]))) = Document doc
     \<and> map sd_action_type (sf_steps doc) = [''system'', ''click'', ''system'']
     \<and> sd_details (last (sf_steps doc))
          = [(''event'', VStr ''recorder_stopped''), (''total_steps'', VInt 2)]"
proof -
  let ?s = "session sample_config
              [Start 3 (sample_env 1000),
               Event 3 (sample_env 1001) LeftMouseDown (sample_event 0 [])]"
  have below: "int (length (steps ?s)) < max_steps (config ?s)"
    by (simp add: sample_defs run_defs)
  have disk: "steps_write (sample_env 1002) = Written"
    by (simp add: sample_defs)
  have acts: "map (\<lambda>st. sd_action_type (to_dict st)) (steps ?s) = [''system'', ''click'']"
    by (simp add: sample_defs run_defs to_dict_def)
  have len: "length (steps ?s) = 2"
    by (simp add: sample_defs run_defs)
  from stop_persists_terminal_step [OF below disk, of 3]
  obtain doc t where
    "steps_json (snd (stop 3 (sample_env 1002) ?s)) = Document doc"
    "sf_steps doc = map to_dict (steps ?s) @ [to_dict t]"
    "action_type t = SYSTEM"
    "details t = [(''event'', VStr ''recorder_stopped''),
                  (''total_steps'', VInt (int (length (steps ?s))))]"
    by blast
  with acts len show ?thesis
    by (simp add: to_dict_def comp_def)
qed

text \<open>
  The same holds for the save after every fifth step: when the file cannot be opened,
  the fifth step is accepted and there is still no session file.
\<close>

lemma autosave_when_write_fails:
  "length (steps (session sample_config
      [Start 3 (sample_env 1000),
       Event 3 (sample_env 1001) LeftMouseDown (sample_event 0 []),
       Event 3 (sample_env 1002) LeftMouseDown (sample_event 0 []),
       Event 3 (sample_env 1003) LeftMouseDown (sample_event 0 []),
       Event 3 ((sample_env 1004)\<lparr>steps_write := Open_failed\<rparr>) LeftMouseDown
         (sample_event 0 [])])) = 5
   \<and> steps_json (session sample_config
      [Start 3 (sample_env 1000),
       Event 3 (sample_env 1001) LeftMouseDown (sample_event 0 []),
       Event 3 (sample_env 1002) LeftMouseDown (sample_event 0 []),
       Event 3 (sample_env 1003) LeftMouseDown (sample_event 0 []),
       Event 3 ((sample_env 1004)\<lparr>steps_write := Open_failed\<rparr>) LeftMouseDown
         (sample_event 0 [])]) = No_file"
  by (simp add: sample_defs run_defs)

text \<open>
  C9. Whenever a step is accepted that brings the number of recorded steps to
  a multiple of five, and the session file can be written, \<^verbatim>\<open>_add_step\<close> leaves
  a session file that holds exactly the steps accepted so far, the new one last,
  whatever the file held before.
\<close>

theorem autosave_on_every_fifth_step:
  assumes "int (length (steps s)) < max_steps (config s)"
    and "Suc (length (steps s)) mod 5 = 0"
    and "steps_write e = Written"
  shows "fst (add_step d e st s) = Returned
       \<and> steps (snd (add_step d e st s)) = steps s @ [st]
       \<and> steps_json (snd (add_step d e st s)) =
           Document
             \<lparr>sf_session = session_name (config s),
              sf_start_time = Some (timestamp ((steps s @ [st]) ! 0)),
              sf_total_steps = Suc (length (steps s)),
              sf_steps = map to_dict (steps s @ [st])\<rparr>"
  using assms
  by (simp add: add_step_below save_def)

theorem autosave_on_every_fifth_step_witness:
  "steps_json (session sample_config
        [Start 3 (sample_env 1000),
         Event 3 (sample_env 1001) LeftMouseDown (sample_event 0 []),
         Event 3 (sample_env 1002) LeftMouseDown (sample_event 0 []),
         Event 3 (sample_env 1003) LeftMouseDown (sample_event 0 [])]) = No_file
   \<and> (\<exists>doc. steps_json (snd (add_step 3 (sample_env 1004)
                \<lparr>step_number = 5, timestamp = ''2026-01-01T10:00:04'', action_type = PASTE,
                 position = None, element = None, application = None, screenshot = None,
                 details = []\<rparr>
                (session sample_config
                   [Start 3 (sample_env 1000),
                    Event 3 (sample_env 1001) LeftMouseDown (sample_event 0 []),
                    Event 3 (sample_env 1002) LeftMouseDown (sample_event 0 []),
                    Event 3 (sample_env 1003) LeftMouseDown (sample_event 0 [])]))) = Document doc
          \<and> sf_total_steps doc = 5
          \<and> map sd_step_number (sf_steps doc) = [1, 2, 3, 4, 5])"
proof -
  let ?s = "session sample_config
              [Start 3 (sample_env 1000),
               Event 3 (sample_env 1001) LeftMouseDown (sample_event 0 []),
               Event 3 (sample_env 1002) LeftMouseDown (sample_event 0 []),
               Event 3 (sample_env 1003) LeftMouseDown (sample_event 0 [])]"
  have below: "int (length (steps ?s)) < max_steps (config ?s)"
    by (simp add: sample_defs run_defs)
  have fifth: "Suc (length (steps ?s)) mod 5 = 0"
    by (simp add: sample_defs run_defs)
  have disk: "steps_write (sample_env 1004) = Written"
    by (simp add: sample_defs)
  have nums: "map (\<lambda>st. sd_step_number (to_dict st)) (steps ?s) = [1, 2, 3, 4]"
    by (simp add: sample_defs run_defs to_dict_def)
  have none: "steps_json ?s = No_file"
    by (simp add: sample_defs run_defs)
  have len: "length (steps ?s) = 4"
    by (simp add: sample_defs run_defs)
  show ?thesis
    using autosave_on_every_fifth_step [OF below fifth disk, where d = 3 and st =
        "\<lparr>step_number = 5, timestamp = ''2026-01-01T10:00:04'', action_type = PASTE,
          position = None, element = None, application = None, screenshot = None,
          details = []\<rparr>"] nums none len
    by (simp add: to_dict_def comp_def)
qed

section \<open>Debounce\<close>

text \<open>
  C4. A raw event that arrives less than the debounce interval after the last accepted
  one is dropped before it is classified: the callback returns and every attribute,
  the time of the last accepted event among them, is as before. An event that arrives at
  or beyond the interval is accepted and its arrival time becomes the time of the last
  accepted event. So of two events, the first accepted, a second one within the interval
  changes nothing and both together add at most one step, while a second one at or beyond
  the interval is accepted too and moves the time on again.
\<close>

theorem debounce_drops_early_events:
  "(now e - last_event_time s < debounce_interval (config s) \<longrightarrow>
      event_callback d e ety ev s = (Returned, s))
   \<and> (\<not> now e - last_event_time s < debounce_interval (config s) \<longrightarrow>
      last_event_time (snd (event_callback d e ety ev s)) = now e)
   \<and> (\<not> now e1 - last_event_time s < debounce_interval (config s) \<longrightarrow>
      (let s1 = snd (event_callback d e1 ety1 ev1 s);
           s2 = snd (event_callback d' e2 ety2 ev2 s1)
       in last_event_time s1 = now e1
          \<and> (now e2 - now e1 < debounce_interval (config s) \<longrightarrow>
               s2 = s1 \<and> length (steps s2) \<le> Suc (length (steps s)))
          \<and> (\<not> now e2 - now e1 < debounce_interval (config s) \<longrightarrow>
               last_event_time s2 = now e2)))"
proof (intro conjI impI)
  assume "now e - last_event_time s < debounce_interval (config s)"
  then show "event_callback d e ety ev s = (Returned, s)"
    by (rule event_callback_dropped)
next
  assume "\<not> now e - last_event_time s < debounce_interval (config s)"
  then show "last_event_time (snd (event_callback d e ety ev s)) = now e"
    by (rule event_callback_accepted)
next
  assume first: "\<not> now e1 - last_event_time s < debounce_interval (config s)"
  let ?s1 = "snd (event_callback d e1 ety1 ev1 s)"
  let ?s2 = "snd (event_callback d' e2 ety2 ev2 ?s1)"
  have t1: "last_event_time ?s1 = now e1"
    using first by (rule event_callback_accepted)
  have early: "?s2 = ?s1 \<and> length (steps ?s2) \<le> Suc (length (steps s))"
    if "now e2 - now e1 < debounce_interval (config s)"
  proof -
    from that t1 have "now e2 - last_event_time ?s1 < debounce_interval (config ?s1)"
      by simp
    then have "?s2 = ?s1" by (simp add: event_callback_dropped)
    then show ?thesis by (simp add: event_callback_length)
  qed
  have late: "last_event_time ?s2 = now e2"
    if "\<not> now e2 - now e1 < debounce_interval (config s)"
  proof -
    from that t1 have "\<not> now e2 - last_event_time ?s1 < debounce_interval (config ?s1)"
      by simp
    then show ?thesis by (rule event_callback_accepted)
  qed
  show "let s1 = ?s1; s2 = snd (event_callback d' e2 ety2 ev2 s1)
        in last_event_time s1 = now e1
           \<and> (now e2 - now e1 < debounce_interval (config s) \<longrightarrow>
                s2 = s1 \<and> length (steps s2) \<le> Suc (length (steps s)))
           \<and> (\<not> now e2 - now e1 < debounce_interval (config s) \<longrightarrow>
                last_event_time s2 = now e2)"
    unfolding Let_def using t1 early late by blast
qed

theorem debounce_drops_early_events_witness:
  "\<not> now (sample_env 1000) - last_event_time (init sample_config)
       < debounce_interval (config (init sample_config))
   \<and> now (sample_env 1000.2) - now (sample_env 1000)
       < debounce_interval (config (init sample_config))
   \<and> snd (event_callback 3 (sample_env 1000.2) RightMouseDown (sample_event 0 [])
          (snd (event_callback 3 (sample_env 1000) LeftMouseDown (sample_event 0 [])
             (init sample_config))))
       = snd (event_callback 3 (sample_env 1000) LeftMouseDown (sample_event 0 [])
           (init sample_config))
   \<and> \<not> now (sample_env 1002) - now (sample_env 1000)
       < debounce_interval (config (init sample_config))
   \<and> last_event_time
        (snd (event_callback 3 (sample_env 1002) RightMouseDown (sample_event 0 [])
           (snd (event_callback 3 (sample_env 1000) LeftMouseDown (sample_event 0 [])
              (init sample_config)))))
       = 1002"
proof -
  let ?s0 = "init sample_config"
  let ?s1 = "snd (event_callback 3 (sample_env 1000) LeftMouseDown (sample_event 0 []) ?s0)"
  have first: "\<not> now (sample_env 1000) - last_event_time ?s0 < debounce_interval (config ?s0)"
    by (simp add: sample_defs init_def)
  have early: "now (sample_env 1000.2) - now (sample_env 1000) < debounce_interval (config ?s0)"
    by (simp add: sample_defs init_def)
  have late: "\<not> now (sample_env 1002) - now (sample_env 1000) < debounce_interval (config ?s0)"
    by (simp add: sample_defs init_def)
  have dropped:
    "snd (event_callback 3 (sample_env 1000.2) RightMouseDown (sample_event 0 []) ?s1) = ?s1"
    using debounce_drops_early_events [of "sample_env 1000" ?s0 3 LeftMouseDown
        "sample_event 0 []" "sample_env 1000" LeftMouseDown "sample_event 0 []" 3
        "sample_env 1000.2" RightMouseDown "sample_event 0 []"] first early
    unfolding Let_def by blast
  have "last_event_time
          (snd (event_callback 3 (sample_env 1002) RightMouseDown (sample_event 0 []) ?s1))
        = now (sample_env 1002)"
    using debounce_drops_early_events [of "sample_env 1000" ?s0 3 LeftMouseDown
        "sample_event 0 []" "sample_env 1000" LeftMouseDown "sample_event 0 []" 3
        "sample_env 1002" RightMouseDown "sample_event 0 []"] first late
    unfolding Let_def by blast
  also have "now (sample_env 1002) = 1002" by (simp add: sample_defs)
  finally have moved: "last_event_time
          (snd (event_callback 3 (sample_env 1002) RightMouseDown (sample_event 0 []) ?s1))
        = 1002" .
  from first early dropped late moved show ?thesis by blast
qed

section \<open>Modifier keys\<close>

lemma handle_modifier_event_twice:
  "handle_modifier_event ev (handle_modifier_event ev s) = s"
  by (cases "modifier_keys (keycode ev)")
    (auto simp: handle_modifier_event_def insert_absorb)

lemma handle_modifier_event_even:
  "(handle_modifier_event ev ^^ (2 * n)) s = s"
  by (induction n) (simp_all add: handle_modifier_event_twice)

lemma handle_modifier_event_pressed:
  "pressed_modifiers s' = pressed_modifiers s \<Longrightarrow>
   pressed_modifiers (handle_modifier_event ev s')
     = pressed_modifiers (handle_modifier_event ev s)"
  by (simp add: handle_modifier_event_def split: option.split)

lemma handle_modifier_event_changes:
  "keycode ev \<in> dom modifier_keys \<Longrightarrow>
   pressed_modifiers (handle_modifier_event ev s) \<noteq> pressed_modifiers s"
  by (auto simp: handle_modifier_event_def split: if_splits)

lemma flags_changed_accepted:
  "\<not> now e - last_event_time s < debounce_interval (config s) \<Longrightarrow>
   event_callback d e FlagsChanged ev s
     = (Returned, handle_modifier_event ev (s\<lparr>last_event_time := now e\<rparr>))"
  by (simp add: event_callback_def Let_def)

lemma deliver_Nil [simp]: "deliver d ety ev s [] = s"
  by (simp add: deliver_def)

lemma deliver_Cons [simp]:
  "deliver d ety ev s (e # es) = deliver d ety ev (snd (event_callback d e ety ev s)) es"
  by (simp add: deliver_def)

lemma deliver_flags_changed_pairs:
  "spaced (debounce_interval (config s)) (last_event_time s) es \<Longrightarrow> even (length es) \<Longrightarrow>
   pressed_modifiers (deliver d FlagsChanged ev s es) = pressed_modifiers s"
proof (induction es arbitrary: s rule: induct_list012)
  case 1
  show ?case by simp
next
  case (2 e)
  then show ?case by simp
next
  case (3 e1 e2 es)
  let ?s1 = "snd (event_callback d e1 FlagsChanged ev s)"
  let ?s2 = "snd (event_callback d e2 FlagsChanged ev ?s1)"
  from "3.prems"(1) have a1: "\<not> now e1 - last_event_time s < debounce_interval (config s)"
    and a2: "\<not> now e2 - now e1 < debounce_interval (config s)"
    and rest: "spaced (debounce_interval (config s)) (now e2) es"
    by simp_all
  have s1: "?s1 = handle_modifier_event ev (s\<lparr>last_event_time := now e1\<rparr>)"
    by (simp add: flags_changed_accepted [OF a1])
  have "\<not> now e2 - last_event_time ?s1 < debounce_interval (config ?s1)"
    using a2 by (simp add: s1)
  then have s2: "?s2 = handle_modifier_event ev (?s1\<lparr>last_event_time := now e2\<rparr>)"
    by (simp add: flags_changed_accepted)
  have "pressed_modifiers ?s1 = pressed_modifiers (handle_modifier_event ev s)"
    unfolding s1 by (rule handle_modifier_event_pressed) simp
  then have "pressed_modifiers (?s1\<lparr>last_event_time := now e2\<rparr>)
          = pressed_modifiers (handle_modifier_event ev s)"
    by simp
  then have "pressed_modifiers (handle_modifier_event ev (?s1\<lparr>last_event_time := now e2\<rparr>))
          = pressed_modifiers (handle_modifier_event ev (handle_modifier_event ev s))"
    by (rule handle_modifier_event_pressed)
  then have restored: "pressed_modifiers ?s2 = pressed_modifiers s"
    by (simp only: s2 handle_modifier_event_twice)
  have "spaced (debounce_interval (config ?s2)) (last_event_time ?s2) es"
    using rest by (simp add: s2)
  moreover from "3.prems"(2) have "even (length es)" by simp
  ultimately have "pressed_modifiers (deliver d FlagsChanged ev ?s2 es) = pressed_modifiers ?s2"
    by (rule "3.IH"(1))
  with restored show ?case by simp
qed

text \<open>
  C8 as written fails: a notification that the debounce filter drops does not reach
  the modifier tracker, so two notifications for the Command key a tenth of a second
  apart leave \<open>cmd\<close> in the set.
\<close>

theorem two_quick_modifier_changes_counterexample:
  "pressed_modifiers (init sample_config) = {}
   \<and> pressed_modifiers
        (deliver 3 FlagsChanged (sample_event 55 []) (init sample_config)
           [sample_env 1000, sample_env 1000.1]) = {''cmd''}"
  by (simp add: sample_defs init_def event_callback_def handle_modifier_event_def
      modifier_keys_def Let_def)

text \<open>
  C8, amended. When each of an even number of change notifications for one key code is
  accepted by the debounce filter (each arrives at least the interval after the one
  before), the modifier set is afterwards what it was; and the tracker
  \<^verbatim>\<open>_handle_modifier_event\<close> itself, applied an even number of times for one key
  code, gives back the state it started from, whether the code is a modifier's or not.
\<close>

theorem even_accepted_modifier_changes_restore:
  "(spaced (debounce_interval (config s)) (last_event_time s) es \<and> even (length es) \<longrightarrow>
      pressed_modifiers (deliver d FlagsChanged ev s es) = pressed_modifiers s)
   \<and> (handle_modifier_event ev ^^ (2 * n)) s = s"
  using deliver_flags_changed_pairs [where s = s and es = es and d = d and ev = ev]
    handle_modifier_event_even [where ev = ev and n = n and s = s]
  by blast

theorem even_accepted_modifier_changes_restore_witness:
  "spaced (debounce_interval (config (init sample_config)))
      (last_event_time (init sample_config)) [sample_env 1000, sample_env 1001]
   \<and> even (length [sample_env 1000, sample_env 1001])
   \<and> pressed_modifiers
        (snd (event_callback 3 (sample_env 1000) FlagsChanged (sample_event 55 [])
           (init sample_config))) = {''cmd''}
   \<and> pressed_modifiers
        (deliver 3 FlagsChanged (sample_event 55 []) (init sample_config)
           [sample_env 1000, sample_env 1001]) = {}"
proof -
  let ?s0 = "init sample_config"
  have sp: "spaced (debounce_interval (config ?s0)) (last_event_time ?s0)
              [sample_env 1000, sample_env 1001]"
    by (simp add: sample_defs init_def)
  have ev: "even (length [sample_env 1000, sample_env 1001])" by simp
  have one: "pressed_modifiers
        (snd (event_callback 3 (sample_env 1000) FlagsChanged (sample_event 55 []) ?s0))
      = {''cmd''}"
    by (simp add: sample_defs init_def event_callback_def handle_modifier_event_def
        modifier_keys_def Let_def)
  have "pressed_modifiers
          (deliver 3 FlagsChanged (sample_event 55 []) ?s0 [sample_env 1000, sample_env 1001])
        = pressed_modifiers ?s0"
    using even_accepted_modifier_changes_restore [where s = ?s0
        and es = "[sample_env 1000, sample_env 1001]" and d = 3 and ev = "sample_event 55 []"]
      sp ev
    by blast
  also have "pressed_modifiers ?s0 = {}" by (simp add: init_def)
  finally show ?thesis using sp ev one by blast
qed

text \<open>
  C10. A modifier change notification that arrives less than the debounce interval
  after the last accepted event is dropped by the filter at the head of the callback:
  the modifier set (and the rest of the state) stays as it was, although the tracker,
  had it been reached, would have changed the set for a modifier's key code.
\<close>

theorem debounced_modifier_change_is_lost:
  assumes "now e - last_event_time s < debounce_interval (config s)"
  shows "pressed_modifiers (snd (event_callback d e FlagsChanged ev s)) = pressed_modifiers s
       \<and> event_callback d e FlagsChanged ev s = (Returned, s)
       \<and> (keycode ev \<in> dom modifier_keys \<longrightarrow>
            pressed_modifiers (handle_modifier_event ev s) \<noteq> pressed_modifiers s)"
  using assms
  by (simp add: event_callback_dropped handle_modifier_event_changes)

theorem debounced_modifier_change_is_lost_witness:
  "now (sample_env 1000.1)
       - last_event_time (snd (event_callback 3 (sample_env 1000) FlagsChanged
            (sample_event 55 []) (init sample_config)))
     < debounce_interval (config (snd (event_callback 3 (sample_env 1000) FlagsChanged
            (sample_event 55 []) (init sample_config))))
   \<and> keycode (sample_event 55 []) \<in> dom modifier_keys
   \<and> pressed_modifiers
        (snd (event_callback 3 (sample_env 1000.1) FlagsChanged (sample_event 55 [])
           (snd (event_callback 3 (sample_env 1000) FlagsChanged (sample_event 55 [])
              (init sample_config))))) = {''cmd''}"
proof -
  let ?s1 = "snd (event_callback 3 (sample_env 1000) FlagsChanged (sample_event 55 [])
               (init sample_config))"
  have early: "now (sample_env 1000.1) - last_event_time ?s1 < debounce_interval (config ?s1)"
    by (simp add: sample_defs init_def event_callback_def handle_modifier_event_def
        modifier_keys_def Let_def)
  have code: "keycode (sample_event 55 []) \<in> dom modifier_keys"
    by (simp add: sample_defs modifier_keys_def)
  have one: "pressed_modifiers ?s1 = {''cmd''}"
    by (simp add: sample_defs init_def event_callback_def handle_modifier_event_def
        modifier_keys_def Let_def)
  from debounced_modifier_change_is_lost [OF early, of 3 "sample_event 55 []"]
  have "pressed_modifiers
          (snd (event_callback 3 (sample_env 1000.1) FlagsChanged (sample_event 55 []) ?s1))
        = pressed_modifiers ?s1"
    by blast
  with early code one show ?thesis by simp
qed

section \<open>Copy detection\<close>

lemma handle_copy_action_below:
  assumes "has_pyperclip e" "clipboard e = Some content" "content \<noteq> []"
    and "int (length (steps s)) < max_steps (config s)"
  shows "fst (handle_copy_action d e app_info s) = Returned"
    and "steps (snd (handle_copy_action d e app_info s)) =
           steps s @
           [\<lparr>step_number = step_counter s, timestamp = now_iso e, action_type = COPY,
             position = None, element = None, application = Some app_info, screenshot = None,
             details = [(''content_preview'', VStr (take 100 content)),
                        (''content_length'', VInt (int (length content)))]\<rparr>]"
  using assms by (simp_all add: handle_copy_action_def add_step_steps)

text \<open>
  C5 as written fails when keystroke capture is switched off:
  \<^verbatim>\<open>_handle_key_event\<close> returns at its first test, before it looks for the copy
  combination, and nothing is recorded.
\<close>

theorem copy_without_keystroke_capture_counterexample:
  "capture_clipboard (config (handle_modifier_event (sample_event 55 [])
       (init (sample_config\<lparr>capture_keystrokes := False\<rparr>))))
   \<and> pressed_modifiers (handle_modifier_event (sample_event 55 [])
       (init (sample_config\<lparr>capture_keystrokes := False\<rparr>))) = {''cmd''}
   \<and> lower (resolve_key (sample_event 8 ''c'')) = ''c''
   \<and> has_pyperclip (sample_env 1000)
   \<and> clipboard (sample_env 1000) = Some ''hello''
   \<and> steps (snd (handle_key_event 3 (sample_env 1000) (sample_event 8 ''c'')
        (handle_modifier_event (sample_event 55 [])
           (init (sample_config\<lparr>capture_keystrokes := False\<rparr>))))) = []"
proof -
  have "lower (resolve_key (sample_event 8 ''c'')) = ''c''"
    by code_simp
  then show ?thesis
    by (simp add: sample_defs init_def handle_modifier_event_def modifier_keys_def
        handle_key_event_def)
qed

text \<open>
  C5, amended. With keystroke capture and clipboard capture both enabled (and pyperclip
  present), a key-down event whose key code is not a modifier's, received while the
  modifier set is exactly \<open>{cmd}\<close>, whose resolved key is \<open>c\<close> in either case, with
  non-empty clipboard content and fewer than \<open>max_steps\<close> steps recorded, appends one COPY
  step; its \<open>content_length\<close> is the length of the content and its \<open>content_preview\<close>
  the first 100 characters.
\<close>

theorem cmd_c_records_copy_step:
  assumes "capture_keystrokes (config s)"
    and "keycode ev \<notin> dom modifier_keys"
    and "capture_clipboard (config s)" and "has_pyperclip e"
    and "pressed_modifiers s = {''cmd''}"
    and "lower (resolve_key ev) = ''c''"
    and "clipboard e = Some content" and "content \<noteq> []"
    and "int (length (steps s)) < max_steps (config s)"
  shows "fst (handle_key_event d e ev s) = Returned
       \<and> steps (snd (handle_key_event d e ev s)) =
           steps s @
           [\<lparr>step_number = step_counter s, timestamp = now_iso e, action_type = COPY,
             position = None, element = None,
             application = Some (get_active_application e), screenshot = None,
             details = [(''content_preview'', VStr (take 100 content)),
                        (''content_length'', VInt (int (length content)))]\<rparr>]"
proof -
  from assms(6) have "resolve_key ev \<noteq> []"
    by (auto simp: lower_def)
  with assms(1,2,3,5,6)
  have "handle_key_event d e ev s = handle_copy_action d e (get_active_application e) s"
    by (simp add: handle_key_event_def Let_def)
  with handle_copy_action_below [OF assms(4,7,8,9)] show ?thesis
    by simp
qed

theorem cmd_c_records_copy_step_witness:
  "map action_type
     (steps (snd (handle_key_event 3 (sample_env 1000) (sample_event 8 ''C'')
        (handle_modifier_event (sample_event 55 []) (init sample_config))))) = [COPY]
   \<and> map details
     (steps (snd (handle_key_event 3 (sample_env 1000) (sample_event 8 ''C'')
        (handle_modifier_event (sample_event 55 []) (init sample_config)))))
     = [[(''content_preview'', VStr ''hello''), (''content_length'', VInt 5)]]"
proof -
  let ?s = "handle_modifier_event (sample_event 55 []) (init sample_config)"
  have 1: "capture_keystrokes (config ?s)" and 3: "capture_clipboard (config ?s)"
    by (simp_all add: sample_defs init_def)
  have 2: "keycode (sample_event 8 ''C'') \<notin> dom modifier_keys"
    by (simp add: sample_defs modifier_keys_def)
  have 4: "has_pyperclip (sample_env 1000)"
    and 7: "clipboard (sample_env 1000) = Some ''hello''"
    by (simp_all add: sample_defs)
  have 5: "pressed_modifiers ?s = {''cmd''}"
    by (simp add: sample_defs init_def handle_modifier_event_def modifier_keys_def)
  have 6: "lower (resolve_key (sample_event 8 ''C'')) = ''c''"
    by code_simp
  have 8: "''hello'' \<noteq> []" by simp
  have 9: "int (length (steps ?s)) < max_steps (config ?s)"
    by (simp add: sample_defs init_def)
  have 0: "steps ?s = []"
    by (simp add: init_def)
  from cmd_c_records_copy_step [OF 1 2 3 4 5 6 7 8 9, of 3] 0 show ?thesis
    by simp
qed

section \<open>Mouse buttons\<close>

lemma mouse_down_accepted:
  assumes "\<not> now e - last_event_time s < debounce_interval (config s)"
  shows "event_callback d e LeftMouseDown ev s
           = handle_click d e ev CLICK (s\<lparr>last_event_time := now e\<rparr>)"
    and "event_callback d e RightMouseDown ev s
           = handle_click d e ev RIGHT_CLICK (s\<lparr>last_event_time := now e\<rparr>)"
    and "event_callback d e OtherMouseDown ev s = (Returned, s\<lparr>last_event_time := now e\<rparr>)"
  using assms by (simp_all add: event_callback_def Let_def)

text \<open>
  C6 as written fails for the middle button: a middle-button-down
  event that passes the debounce test matches no branch of the callback and records
  nothing, and the event tap does not subscribe to such events in the first place.
\<close>

theorem middle_button_counterexample:
  "\<not> now (sample_env 1000) - last_event_time (init sample_config)
       < debounce_interval (config (init sample_config))
   \<and> last_event_time (snd (event_callback 3 (sample_env 1000) OtherMouseDown
        (sample_event 0 []) (init sample_config))) = 1000
   \<and> steps (snd (event_callback 3 (sample_env 1000) OtherMouseDown
        (sample_event 0 []) (init sample_config))) = []
   \<and> OtherMouseDown \<notin> event_mask sample_config"
  by (simp add: sample_defs init_def event_callback_def event_mask_def Let_def)

text \<open>
  C6, amended. A left or right button-down event that passes the debounce test while
  fewer than \<open>max_steps\<close> steps are recorded appends exactly one step, a click for the
  left button and a right_click for the right one, which carries the event's screen
  location (each coordinate truncated to an integer) and the modifier set as it is at
  that moment. A middle-button-down event appends nothing, and is not in the tap's mask.
\<close>

theorem left_and_right_button_down_record_clicks:
  assumes "\<not> now e - last_event_time s < debounce_interval (config s)"
    and "int (length (steps s)) < max_steps (config s)"
  shows "(\<exists>st. steps (snd (event_callback d e LeftMouseDown ev s)) = steps s @ [st]
            \<and> action_type st = CLICK
            \<and> position st = Some (py_int (fst (location ev)), py_int (snd (location ev)))
            \<and> map_of (details st) ''modifiers'' = Some (VStrs (pressed_modifiers s)))
       \<and> (\<exists>st. steps (snd (event_callback d e RightMouseDown ev s)) = steps s @ [st]
            \<and> action_type st = RIGHT_CLICK
            \<and> position st = Some (py_int (fst (location ev)), py_int (snd (location ev)))
            \<and> map_of (details st) ''modifiers'' = Some (VStrs (pressed_modifiers s)))
       \<and> steps (snd (event_callback d e OtherMouseDown ev s)) = steps s
       \<and> OtherMouseDown \<notin> event_mask (config s)"
  using assms
  by (simp add: mouse_down_accepted handle_click_steps event_mask_def)

theorem left_and_right_button_down_record_clicks_witness:
  "map action_type (steps (snd (event_callback 3 (sample_env 1000) LeftMouseDown
        (sample_event 0 []) (init sample_config)))) = [CLICK]
   \<and> map position (steps (snd (event_callback 3 (sample_env 1000) LeftMouseDown
        (sample_event 0 []) (init sample_config)))) = [Some (10, 20)]
   \<and> map action_type (steps (snd (event_callback 3 (sample_env 1000) RightMouseDown
        (sample_event 0 []) (init sample_config)))) = [RIGHT_CLICK]"
proof -
  let ?s = "init sample_config"
  have acc: "\<not> now (sample_env 1000) - last_event_time ?s < debounce_interval (config ?s)"
    by (simp add: sample_defs init_def)
  have below: "int (length (steps ?s)) < max_steps (config ?s)"
    by (simp add: sample_defs init_def)
  have empty: "steps ?s = []" by (simp add: init_def)
  have loc: "py_int (fst (location (sample_event 0 []))) = 10"
    "py_int (snd (location (sample_event 0 []))) = 20"
    by (simp_all add: sample_defs py_int_def)
  from left_and_right_button_down_record_clicks [OF acc below, of 3 "sample_event 0 []"]
  obtain st1 st2 where
    "steps (snd (event_callback 3 (sample_env 1000) LeftMouseDown (sample_event 0 []) ?s))
       = steps ?s @ [st1]"
    "action_type st1 = CLICK"
    "position st1 = Some (py_int (fst (location (sample_event 0 []))),
                          py_int (snd (location (sample_event 0 []))))"
    "steps (snd (event_callback 3 (sample_env 1000) RightMouseDown (sample_event 0 []) ?s))
       = steps ?s @ [st2]"
    "action_type st2 = RIGHT_CLICK"
    by blast
  with empty loc show ?thesis by simp
qed

section \<open>Screenshots\<close>

lemma dec_digits_length:
  "n < 10 ^ Suc k \<Longrightarrow> length (dec_digits n acc) \<le> Suc k + length acc"
proof (induction k arbitrary: n acc)
  case 0
  then show ?case by (simp add: dec_digits.simps [of n])
next
  case (Suc k)
  show ?case
  proof (cases "n < 10")
    case True
    then show ?thesis by (simp add: dec_digits.simps [of n])
  next
    case False
    from Suc.prems have "n div 10 < 10 ^ Suc k" by simp
    then have "length (dec_digits (n div 10) (digit_char (n mod 10) # acc))
                 \<le> Suc k + length (digit_char (n mod 10) # acc)"
      by (rule Suc.IH)
    with False show ?thesis by (simp add: dec_digits.simps [of n])
  qed
qed

lemma fmt_04d_length:
  assumes "0 \<le> i" "i < 10000"
  shows "length (fmt_04d i) = 4"
proof -
  from assms have "nat i < 10 ^ Suc 3" by simp
  then have "length (str_nat (nat i)) \<le> 4"
    unfolding str_nat_def using dec_digits_length [of "nat i" 3 "[]"] by simp
  with assms show ?thesis by (simp add: fmt_04d_def zfill_def)
qed

lemma handle_scroll_event_steps:
  "steps (snd (handle_scroll_event d e ev s)) =
     (if \<bar>real_of_int (scroll_delta ev)\<bar> < 0.5 \<or> \<not> int (length (steps s)) < max_steps (config s)
      then steps s
      else steps s @
        [\<lparr>step_number = step_counter s, timestamp = now_iso e, action_type = SCROLL,
          position = Some (py_int (fst (location ev)), py_int (snd (location ev))),
          element = None, application = Some (get_active_application e), screenshot = None,
          details = [(''delta_y'', VFloat (real_of_int (scroll_delta ev))),
                     (''direction'', VStr (if scroll_delta ev > 0 then ''up'' else ''down''))]\<rparr>])"
  by (simp add: handle_scroll_event_def Let_def split_def add_step_steps)

lemma handle_scroll_event_screenshot_files:
  "screenshot_files (snd (handle_scroll_event d e ev s)) = screenshot_files s"
  by (simp add: handle_scroll_event_def Let_def split_def)

text \<open>
  C7 as written fails for scroll: \<^verbatim>\<open>_handle_scroll_event\<close>
  never asks for a screenshot. With capture enabled and a capture that would succeed,
  the scroll step is recorded with an empty screenshot field and no image file is
  written.
\<close>

theorem scroll_takes_no_screenshot_counterexample:
  "capture_screenshots (config (init sample_config))
   \<and> capture (sample_env 1000) = Png_data True
   \<and> map action_type (steps (snd (handle_scroll_event 3 (sample_env 1000)
        (sample_event 0 []) (init sample_config)))) = [SCROLL]
   \<and> map screenshot (steps (snd (handle_scroll_event 3 (sample_env 1000)
        (sample_event 0 []) (init sample_config)))) = [None]
   \<and> screenshot_files (snd (handle_scroll_event 3 (sample_env 1000)
        (sample_event 0 []) (init sample_config))) = {}"
  by (simp add: sample_defs init_def handle_scroll_event_steps
      handle_scroll_event_screenshot_files)

text \<open>
  C7, amended. For a click or right-click with screenshot capture enabled and fewer than
  \<open>max_steps\<close> steps recorded, the capture is asked for under the name
  \<open>screenshot_NNNN.png\<close>, where \<open>NNNN\<close> is the number the step is about to get, padded
  with zeros to four digits (exactly four while that number is below 10000). When the
  capture delivers PNG data and the image file is written, the step's screenshot field
  is \<open>screenshots/\<close> followed by that name, and the file of that name exists; when the
  capture fails (it raises, or gives no image or no data) the step is still recorded,
  with an empty screenshot field. Nothing is said here about a capture whose data could
  not be written to the file. A scroll step never has a screenshot, and handling a scroll
  event writes no image file.
\<close>

theorem click_screenshot_named_by_step_number:
  assumes "capture_screenshots (config s)"
    and "int (length (steps s)) < max_steps (config s)"
  shows "(\<exists>st. steps (snd (handle_click d e ev act s)) = steps s @ [st]
            \<and> step_number st = step_counter s
            \<and> (capture e = Png_data True \<longrightarrow>
                 screenshot st =
                   Some (''screenshots/screenshot_'' @ fmt_04d (step_number st) @ ''.png'')
                 \<and> ''screenshot_'' @ fmt_04d (step_number st) @ ''.png''
                      \<in> screenshot_files (snd (handle_click d e ev act s)))
            \<and> (capture e = Capture_raised \<or> capture e = No_image \<or> capture e = No_png_data
                 \<longrightarrow> screenshot st = None)
            \<and> (0 \<le> step_counter s \<and> step_counter s < 10000 \<longrightarrow>
                 length (fmt_04d (step_number st)) = 4))
       \<and> (steps (snd (handle_scroll_event d e ev s)) = steps s
            \<or> (\<exists>st. steps (snd (handle_scroll_event d e ev s)) = steps s @ [st]
                  \<and> action_type st = SCROLL \<and> screenshot st = None))
       \<and> screenshot_files (snd (handle_scroll_event d e ev s)) = screenshot_files s"
proof (intro conjI)
  let ?st = "\<lparr>step_number = step_counter s, timestamp = now_iso e, action_type = act,
          position = Some (py_int (fst (location ev)), py_int (snd (location ev))),
          element = None, application = Some (get_active_application e),
          screenshot = (if capture_screenshots (config s) then fst (take_screenshot e s) else None),
          details = [(''mouse_button'', VStr (if act = CLICK then ''left'' else ''right'')),
                     (''modifiers'', VStrs (pressed_modifiers s))]\<rparr>"
  have st: "steps (snd (handle_click d e ev act s)) = steps s @ [?st]"
    using assms(2) by (simp add: handle_click_steps)
  have shot: "capture e = Png_data True \<longrightarrow>
                screenshot ?st =
                  Some (''screenshots/screenshot_'' @ fmt_04d (step_number ?st) @ ''.png'')"
    using assms(1) by (simp add: take_screenshot_def screenshot_filename_def)
  have files: "capture e = Png_data True \<longrightarrow>
                 ''screenshot_'' @ fmt_04d (step_number ?st) @ ''.png''
                   \<in> screenshot_files (snd (handle_click d e ev act s))"
    using assms(1)
    by (simp add: handle_click_def Let_def split_def take_screenshot_def screenshot_filename_def)
  have failed: "capture e = Capture_raised \<or> capture e = No_image \<or> capture e = No_png_data
                 \<longrightarrow> screenshot ?st = None"
    using assms(1) by (auto simp: take_screenshot_def)
  have width: "0 \<le> step_counter s \<and> step_counter s < 10000 \<longrightarrow>
                 length (fmt_04d (step_number ?st)) = 4"
    by (simp add: fmt_04d_length)
  from st shot files failed width
  show "\<exists>st. steps (snd (handle_click d e ev act s)) = steps s @ [st]
            \<and> step_number st = step_counter s
            \<and> (capture e = Png_data True \<longrightarrow>
                 screenshot st =
                   Some (''screenshots/screenshot_'' @ fmt_04d (step_number st) @ ''.png'')
                 \<and> ''screenshot_'' @ fmt_04d (step_number st) @ ''.png''
                      \<in> screenshot_files (snd (handle_click d e ev act s)))
            \<and> (capture e = Capture_raised \<or> capture e = No_image \<or> capture e = No_png_data
                 \<longrightarrow> screenshot st = None)
            \<and> (0 \<le> step_counter s \<and> step_counter s < 10000 \<longrightarrow>
                 length (fmt_04d (step_number st)) = 4)"
    by (intro exI [of _ ?st] conjI) simp_all
next
  show "steps (snd (handle_scroll_event d e ev s)) = steps s
          \<or> (\<exists>st. steps (snd (handle_scroll_event d e ev s)) = steps s @ [st]
                \<and> action_type st = SCROLL \<and> screenshot st = None)"
    by (simp add: handle_scroll_event_steps)
next
  show "screenshot_files (snd (handle_scroll_event d e ev s)) = screenshot_files s"
    by (rule handle_scroll_event_screenshot_files)
qed

theorem click_screenshot_named_by_step_number_witness:
  "map screenshot (steps (snd (handle_click 3 (sample_env 1000) (sample_event 0 []) CLICK
        (init sample_config)))) = [Some ''screenshots/screenshot_0001.png'']
   \<and> ''screenshot_0001.png'' \<in> screenshot_files (snd (handle_click 3 (sample_env 1000)
        (sample_event 0 []) CLICK (init sample_config)))
   \<and> map screenshot (steps (snd (handle_click 3 ((sample_env 1000)\<lparr>capture := No_image\<rparr>)
        (sample_event 0 []) RIGHT_CLICK (init sample_config)))) = [None]
   \<and> length (fmt_04d (step_counter (init sample_config))) = 4"
proof -
  let ?s = "init sample_config"
  have on: "capture_screenshots (config ?s)"
    and below: "int (length (steps ?s)) < max_steps (config ?s)"
    and empty: "steps ?s = []" and one: "step_counter ?s = 1"
    by (simp_all add: sample_defs init_def)
  have ok: "capture (sample_env 1000) = Png_data True"
    and bad: "capture ((sample_env 1000)\<lparr>capture := No_image\<rparr>) = No_image"
    by (simp_all add: sample_defs)
  have pad: "fmt_04d 1 = ''0001''" by code_simp
  from click_screenshot_named_by_step_number [OF on below, of 3 "sample_env 1000"
      "sample_event 0 []" CLICK]
  obtain st where
    "steps (snd (handle_click 3 (sample_env 1000) (sample_event 0 []) CLICK ?s)) = steps ?s @ [st]"
    "step_number st = step_counter ?s"
    "capture (sample_env 1000) = Png_data True \<longrightarrow>
       screenshot st = Some (''screenshots/screenshot_'' @ fmt_04d (step_number st) @ ''.png'')
       \<and> ''screenshot_'' @ fmt_04d (step_number st) @ ''.png''
            \<in> screenshot_files (snd (handle_click 3 (sample_env 1000) (sample_event 0 []) CLICK ?s))"
    "0 \<le> step_counter ?s \<and> step_counter ?s < 10000 \<longrightarrow>
       length (fmt_04d (step_number st)) = 4"
    by blast
  with ok empty one pad
  have good: "map screenshot (steps (snd (handle_click 3 (sample_env 1000) (sample_event 0 [])
                 CLICK ?s))) = [Some ''screenshots/screenshot_0001.png'']"
    and written: "''screenshot_0001.png'' \<in> screenshot_files (snd (handle_click 3
                 (sample_env 1000) (sample_event 0 []) CLICK ?s))"
    and width: "length (fmt_04d (step_counter ?s)) = 4"
    by simp_all
  from click_screenshot_named_by_step_number [OF on below, of 3
      "(sample_env 1000)\<lparr>capture := No_image\<rparr>" "sample_event 0 []" RIGHT_CLICK]
  obtain st' where
    "steps (snd (handle_click 3 ((sample_env 1000)\<lparr>capture := No_image\<rparr>) (sample_event 0 [])
        RIGHT_CLICK ?s)) = steps ?s @ [st']"
    "capture ((sample_env 1000)\<lparr>capture := No_image\<rparr>) = Capture_raised
       \<or> capture ((sample_env 1000)\<lparr>capture := No_image\<rparr>) = No_image
       \<or> capture ((sample_env 1000)\<lparr>capture := No_image\<rparr>) = No_png_data
     \<longrightarrow> screenshot st' = None"
    by blast
  with bad empty
  have failed: "map screenshot (steps (snd (handle_click 3
        ((sample_env 1000)\<lparr>capture := No_image\<rparr>) (sample_event 0 []) RIGHT_CLICK ?s))) = [None]"
    by simp
  from good written failed width show ?thesis by blast
qed

end
